theory Spec2Isabelle
  imports Complex_Main
begin

section \<open>Precisions, coordinate systems and errors\<close>

text \<open>
  The module \<^verbatim>\<open>nipy/core/reference/coordinate_map.py\<close> builds on the coordinate
  systems of \<^verbatim>\<open>coordinate_system.py\<close> and on numpy arrays. Numbers are taken in exact
  arithmetic (a field); the precision of an array or of a coordinate system is carried as
  a tag that decides which coordinate systems are equal, not how numbers are rounded.
\<close>

text \<open>
  Modelled from the spec: the numeric precision (dtype) of a coordinate system, declared in
  \<^verbatim>\<open>coordinate_system.py\<close>, which is not among the sources. The spec makes the
  precisions a total order used for promotion; three floating kinds of numpy stand for it.
\<close>

datatype dtype = float32 | float64 | complex128

fun dtype_rank :: "dtype \<Rightarrow> nat" where
  "dtype_rank float32 = 0"
| "dtype_rank float64 = 1"
| "dtype_rank complex128 = 2"

definition promote :: "dtype \<Rightarrow> dtype \<Rightarrow> dtype" where
  "promote a b = (if dtype_rank a \<le> dtype_rank b then b else a)"

text \<open>
  Modelled from the spec: \<^verbatim>\<open>safe_dtype(*dtypes)\<close> of \<^verbatim>\<open>coordinate_system.py\<close>, the
  promotion function returning the least upper bound of the precisions it is given.
\<close>

definition safe_dtype :: "dtype list \<Rightarrow> dtype" where
  "safe_dtype ds = fold promote ds float32"

text \<open>\<^verbatim>\<open>np.float\<close>, the precision of \<^verbatim>\<open>np.zeros\<close>, \<^verbatim>\<open>np.identity\<close> and \<^verbatim>\<open>np.eye\<close>.\<close>

definition np_float :: dtype where
  "np_float = float64"

text \<open>
  Modelled from the spec: the class \<^verbatim>\<open>CoordinateSystem\<close> of \<^verbatim>\<open>coordinate_system.py\<close>:
  ordered axis names, a label and a precision. Its constructor
  \<^verbatim>\<open>CoordinateSystem(coord_names, name, coord_dtype)\<close> is the record itself.
\<close>

record CoordinateSystem =
  coord_names :: "string list"
  name :: string
  coord_dtype :: dtype

definition ndim :: "CoordinateSystem \<Rightarrow> nat" where
  "ndim cs = length (coord_names cs)"

text \<open>
  Modelled from the spec: the equality \<^verbatim>\<open>==\<close> of coordinate systems. Two systems are
  equal when their axes and their precision agree: this is what \<^verbatim>\<open>compose\<close> prints of
  each system (its \<^verbatim>\<open>dtype\<close> attribute) when two of them do not match.
\<close>

definition coordsys_eq :: "CoordinateSystem \<Rightarrow> CoordinateSystem \<Rightarrow> bool" where
  "coordsys_eq a b \<longleftrightarrow> coord_names a = coord_names b \<and> coord_dtype a = coord_dtype b"

text \<open>The messages of the errors the module raises, each with what the message prints.\<close>

datatype message =
    coordinates_do_not_match CoordinateSystem CoordinateSystem
      \<comment> \<open>\<^verbatim>\<open>'input and output coordinates do not match: input=%s, output=%s'\<close>\<close>
  | no_input_coordinate_named string
      \<comment> \<open>\<^verbatim>\<open>'no input coordinate named %s'\<close>\<close>
  | lengths_do_not_match_affine_shape
      \<comment> \<open>\<^verbatim>\<open>'coordinate lengths do not match affine matrix shape'\<close>\<close>
  | no_inverse_for_this_affine
      \<comment> \<open>\<^verbatim>\<open>'There is no inverse for this affine'\<close>\<close>
  | origin_shape nat
      \<comment> \<open>\<^verbatim>\<open>'origin.shape != (%d,)'\<close>\<close>
  | array_shape_must_match CoordinateSystem
      \<comment> \<open>raised by \<^verbatim>\<open>_checked_values\<close>\<close>
  | no_coordinate_of_that_name string
      \<comment> \<open>raised by \<^verbatim>\<open>CoordinateSystem.index\<close>\<close>
  | shapes_not_aligned
      \<comment> \<open>raised by numpy when the shapes of two operands do not fit\<close>
  | need_at_least_one_array
      \<comment> \<open>raised by \<^verbatim>\<open>np.hstack\<close> on an empty sequence\<close>

datatype error =
    ValueError message
  | IndexError
  | LinAlgError

text \<open>
  Modelled from the spec: \<^verbatim>\<open>CoordinateSystem.index(name)\<close>, the lookup of an axis by
  name, and \<^verbatim>\<open>_checked_values(x)\<close>, which accepts a batch of points when the last
  dimension has the size of the system and fails with a \<^verbatim>\<open>ValueError\<close> otherwise.
  A single point is a batch of one row.
\<close>

fun index_of :: "string list \<Rightarrow> string \<Rightarrow> nat option" where
  "index_of [] s = None"
| "index_of (n # ns) s = (if n = s then Some 0 else map_option Suc (index_of ns s))"

definition coordsys_index :: "CoordinateSystem \<Rightarrow> string \<Rightarrow> error + int" where
  "coordsys_index cs s =
     (case index_of (coord_names cs) s of
        None \<Rightarrow> Inl (ValueError (no_coordinate_of_that_name s))
      | Some i \<Rightarrow> Inr (int i))"

definition checked_values :: "CoordinateSystem \<Rightarrow> 'a list list \<Rightarrow> error + 'a list list" where
  "checked_values cs x =
     (if list_all (\<lambda>row. length row = ndim cs) x then Inr x
      else Inl (ValueError (array_shape_must_match cs)))"


section \<open>Arrays\<close>

text \<open>
  A two-dimensional numpy array is the list of its rows with its precision; a point is a
  list of numbers.
\<close>

datatype 'a ndarray = Array (dtype: dtype) (rows: "'a list list")

definition has_shape :: "'a list list \<Rightarrow> nat \<Rightarrow> nat \<Rightarrow> bool" where
  "has_shape M r c \<longleftrightarrow> length M = r \<and> list_all (\<lambda>row. length row = c) M"

definition dot :: "'a::field list \<Rightarrow> 'a list \<Rightarrow> 'a" where
  "dot u v = sum_list (map2 (*) u v)"




definition unit_vector :: "nat \<Rightarrow> nat \<Rightarrow> 'a::field list" where
  "unit_vector n i = map (\<lambda>j. if j = i then 1 else 0) [0..<n]"

text \<open>\<^verbatim>\<open>np.identity(n)\<close> and \<^verbatim>\<open>np.eye(n)\<close>.\<close>

definition identity :: "nat \<Rightarrow> 'a::field list list" where
  "identity n = map (unit_vector n) [0..<n]"


text \<open>
  Modelled from the spec: \<^verbatim>\<open>to_matrix_vector\<close> of \<^verbatim>\<open>nipy.core.transforms.affines\<close>,
  which is not among the sources: the linear block \<open>A\<close> and the translation \<open>b\<close> of the
  homogeneous matrix \<open>[[A, b], [0, 1]]\<close>.
\<close>

definition to_matrix_vector :: "'a list list \<Rightarrow> 'a list list \<times> 'a list" where
  "to_matrix_vector M = (map butlast (butlast M), map last (butlast M))"

text \<open>
  The closure \<^verbatim>\<open>_function\<close> of \<^verbatim>\<open>AffineTransform.__init__\<close> at one point \<open>x\<close>:
  \<^verbatim>\<open>np.dot(x, A.T) + b\<close>. numpy raises a \<^verbatim>\<open>ValueError\<close> when \<open>x\<close> has not the width of
  \<open>A\<close>.
\<close>

definition affine_function :: "'a::field list list \<Rightarrow> 'a list \<Rightarrow> error + 'a list" where
  "affine_function M x =
     (case to_matrix_vector M of (A, b) \<Rightarrow>
        if list_all (\<lambda>row. length row = length x) A
        then Inr (map2 (+) (map (dot x) A) b)
        else Inl (ValueError shapes_not_aligned))"

section \<open>Coordinate maps and affine transforms\<close>

text \<open>
  The two classes of the module. A \<^verbatim>\<open>CoordinateMap\<close> holds its function, its coordinate
  systems and an optional inverse function; an \<^verbatim>\<open>AffineTransform\<close> holds its matrix and
  its coordinate systems, and its function is derived from the matrix. A function acts on
  one point and may raise; on a batch it is applied to every row.
\<close>

datatype 'a cmap =
    CoordinateMap
      (the_function: "'a list \<Rightarrow> error + 'a list")
      (input_coords: CoordinateSystem)
      (output_coords: CoordinateSystem)
      (the_inverse_function: "('a list \<Rightarrow> error + 'a list) option")
  | AffineTransform
      (affine: "'a list list")
      (input_coords: CoordinateSystem)
      (output_coords: CoordinateSystem)

fun is_affine :: "'a cmap \<Rightarrow> bool" where
  "is_affine (AffineTransform M ic oc) = True"
| "is_affine (CoordinateMap f ic oc g) = False"

text \<open>The property \<^verbatim>\<open>function\<close>.\<close>

fun function_of :: "'a::field cmap \<Rightarrow> 'a list \<Rightarrow> error + 'a list" where
  "function_of (CoordinateMap f ic oc g) = f"
| "function_of (AffineTransform M ic oc) = affine_function M"

text \<open>The property \<^verbatim>\<open>affine\<close>: the matrix, in the precision its constructor gave it.\<close>

definition affine_array :: "'a cmap \<Rightarrow> 'a ndarray" where
  "affine_array t = Array (coord_dtype (input_coords t)) (affine t)"

fun apply_rows :: "('a \<Rightarrow> error + 'b) \<Rightarrow> 'a list \<Rightarrow> error + 'b list" where
  "apply_rows f [] = Inr []"
| "apply_rows f (x # xs) =
     (case f x of
        Inl e \<Rightarrow> Inl e
      | Inr y \<Rightarrow> (case apply_rows f xs of Inl e \<Rightarrow> Inl e | Inr ys \<Rightarrow> Inr (y # ys)))"

text \<open>\<^verbatim>\<open>CoordinateMap.__call__\<close>, inherited by \<^verbatim>\<open>AffineTransform\<close>.\<close>

definition call :: "'a::field cmap \<Rightarrow> 'a list list \<Rightarrow> error + 'a list list" where
  "call self x =
     (case checked_values (input_coords self) x of
        Inl e \<Rightarrow> Inl e
      | Inr in_vals \<Rightarrow>
          (case apply_rows (function_of self) in_vals of
             Inl e \<Rightarrow> Inl e
           | Inr out_vals \<Rightarrow> checked_values (output_coords self) out_vals))"

text \<open>\<^verbatim>\<open>_checkfunction\<close>: the map is called on ten rows of zeros.\<close>

definition checkfunction :: "'a::field cmap \<Rightarrow> error + unit" where
  "checkfunction self =
     (case call self (replicate 10 (replicate (ndim (input_coords self)) 0)) of
        Inl e \<Rightarrow> Inl e
      | Inr out \<Rightarrow> Inr ())"

text \<open>
  \<^verbatim>\<open>CoordinateMap.__init__\<close>. A function of the model is always callable, so the two
  \<^verbatim>\<open>callable\<close> checks pass; the constructor then checks the function on zeros.
\<close>

definition CoordinateMap_init ::
  "('a::field list \<Rightarrow> error + 'a list) \<Rightarrow> CoordinateSystem \<Rightarrow> CoordinateSystem \<Rightarrow>
   ('a list \<Rightarrow> error + 'a list) option \<Rightarrow> error + 'a cmap" where
  "CoordinateMap_init f ic oc g =
     (case checkfunction (CoordinateMap f ic oc g) of
        Inl e \<Rightarrow> Inl e
      | Inr u \<Rightarrow> Inr (CoordinateMap f ic oc g))"

text \<open>
  \<^verbatim>\<open>AffineTransform.__init__\<close>: the precision is promoted over the matrix and the two
  coordinate systems, both systems are rebuilt with it, and the shape of the matrix is
  checked against them. The constructor does not call \<^verbatim>\<open>_checkfunction\<close>.
\<close>

definition AffineTransform_init ::
  "'a ndarray \<Rightarrow> CoordinateSystem \<Rightarrow> CoordinateSystem \<Rightarrow> error + 'a cmap" where
  "AffineTransform_init affine_arg ic oc =
     (let dt = safe_dtype [dtype affine_arg, coord_dtype ic, coord_dtype oc];
          inc = \<lparr>coord_names = coord_names ic, name = name ic, coord_dtype = dt\<rparr>;
          outc = \<lparr>coord_names = coord_names oc, name = name oc, coord_dtype = dt\<rparr>
      in if \<not> has_shape (rows affine_arg) (ndim outc + 1) (ndim inc + 1)
         then Inl (ValueError lengths_do_not_match_affine_shape)
         else Inr (AffineTransform (rows affine_arg) inc outc))"

section \<open>Matrix inversion\<close>

text \<open>
  \<^verbatim>\<open>np.linalg.inv\<close> in exact arithmetic: Gauss-Jordan elimination on the rows of the
  matrix extended by the identity. It raises \<^verbatim>\<open>LinAlgError\<close> when the matrix is not
  square or when a column has no pivot. The result keeps the precision of the matrix.
\<close>

definition swap_rows :: "nat \<Rightarrow> nat \<Rightarrow> 'a list list \<Rightarrow> 'a list list" where
  "swap_rows k p R = R[k := R ! p, p := R ! k]"

definition eliminate :: "nat \<Rightarrow> 'a::field list list \<Rightarrow> 'a list list" where
  "eliminate k R =
     (let pivot_row = map (\<lambda>x. x / (R ! k ! k)) (R ! k)
      in map (\<lambda>i. if i = k then pivot_row
                   else map2 (\<lambda>x y. x - (R ! i ! k) * y) (R ! i) pivot_row)
           [0..<length R])"

definition find_pivot :: "nat \<Rightarrow> 'a::field list list \<Rightarrow> nat option" where
  "find_pivot k R = find (\<lambda>i. R ! i ! k \<noteq> 0) [k..<length R]"

fun gauss_jordan :: "nat \<Rightarrow> nat \<Rightarrow> 'a::field list list \<Rightarrow> 'a list list option" where
  "gauss_jordan 0 k R = Some R"
| "gauss_jordan (Suc m) k R =
     (case find_pivot k R of
        None \<Rightarrow> None
      | Some p \<Rightarrow> gauss_jordan m (Suc k) (eliminate k (swap_rows k p R)))"

definition linalg_inv :: "'a::field ndarray \<Rightarrow> error + 'a ndarray" where
  "linalg_inv a =
     (let M = rows a; n = length M
      in if \<not> has_shape M n n then Inl LinAlgError
         else (case gauss_jordan n 0 (map2 (@) M (identity n)) of
                 None \<Rightarrow> Inl LinAlgError
               | Some R \<Rightarrow> Inr (Array (dtype a) (map (drop n) R))))"

section \<open>Inverses\<close>

text \<open>
  The property \<^verbatim>\<open>inverse\<close> of the two classes; \<open>None\<close> is Python's \<^verbatim>\<open>None\<close>. The
  one of \<^verbatim>\<open>CoordinateMap\<close> constructs a map, so it can raise what the constructor
  raises; the one of \<^verbatim>\<open>AffineTransform\<close> catches \<^verbatim>\<open>LinAlgError\<close> and then falls off the
  end of the function.
\<close>

fun inverse_of :: "'a::field cmap \<Rightarrow> error + 'a cmap option" where
  "inverse_of (CoordinateMap f ic oc g) =
     (case g of
        None \<Rightarrow> Inr None
      | Some gi \<Rightarrow>
          (case CoordinateMap_init gi oc ic (Some f) of
             Inl e \<Rightarrow> Inl e
           | Inr c \<Rightarrow> Inr (Some c)))"
| "inverse_of (AffineTransform M ic oc) =
     (case linalg_inv (affine_array (AffineTransform M ic oc)) of
        Inl e \<Rightarrow> (if e = LinAlgError then Inr None else Inl e)
      | Inr Minv \<Rightarrow>
          (case AffineTransform_init Minv oc ic of
             Inl e \<Rightarrow> (if e = LinAlgError then Inr None else Inl e)
           | Inr t \<Rightarrow> Inr (Some t)))"


section \<open>Linearization\<close>

text \<open>
  \<^verbatim>\<open>linearize(function, ndimin, step=1, origin=None, dtype=None)\<close>. The function is
  called three times: on the origin, on the rows \<open>step * e\<^sub>i + origin\<close> and on \<open>ndimin\<close>
  copies of the origin. \<open>step\<close> is a Python scalar, so a missing \<open>dtype\<close> is
  \<^verbatim>\<open>np.float\<close>. numpy reads \<open>ndimout\<close> off the second result and fails when the pieces
  assigned to the matrix do not have its shape: the matrix is built when both batches have
  \<open>ndimin\<close> rows of the width of \<open>function(origin)\<close>. The result is tagged with
  \<open>dtype\<close>, the values of the function being taken in that precision. The quotient by a
  zero step is not a number in numpy (nan or inf); here it is 0.
\<close>

definition linearize ::
  "('a::field list list \<Rightarrow> error + 'a list list) \<Rightarrow> nat \<Rightarrow> 'a \<Rightarrow> 'a list option \<Rightarrow>
   dtype option \<Rightarrow> error + 'a ndarray" where
  "linearize F ndimin step origin dt =
     (let dt1 = (case dt of None \<Rightarrow> np_float | Some d \<Rightarrow> d);
          origin1 = (case origin of
                       None \<Rightarrow> Inr (replicate ndimin 0)
                     | Some og \<Rightarrow>
                         if length og \<noteq> ndimin then Inl (ValueError (origin_shape ndimin))
                         else Inr og)
      in case origin1 of
           Inl e \<Rightarrow> Inl e
         | Inr og \<Rightarrow>
             (case F [og] of
                Inl e \<Rightarrow> Inl e
              | Inr b2 \<Rightarrow>
                  (case F (map2 (map2 (+)) (map (map ((*) step)) (identity ndimin))
                             (replicate ndimin og)) of
                     Inl e \<Rightarrow> Inl e
                   | Inr y1 \<Rightarrow>
                       (case F (replicate ndimin og) of
                          Inl e \<Rightarrow> Inl e
                        | Inr y0 \<Rightarrow>
                            (let b = concat b2; ndimout = length b
                             in if has_shape y1 ndimin ndimout \<and> has_shape y0 ndimin ndimout
                                then Inr (Array dt1
                                  (map (\<lambda>r. map (\<lambda>c. (y1 ! c ! r - y0 ! c ! r) / step)
                                               [0..<ndimin] @ [b ! r])
                                     [0..<ndimout]
                                   @ [replicate ndimin 0 @ [1]]))
                                else Inl (ValueError shapes_not_aligned))))))"

section \<open>Composition\<close>

definition then_apply :: "('a \<Rightarrow> error + 'b) \<Rightarrow> ('b \<Rightarrow> error + 'c) \<Rightarrow> 'a \<Rightarrow> error + 'c" where
  "then_apply f g x = (case f x of Inl e \<Rightarrow> Inl e | Inr y \<Rightarrow> g y)"

text \<open>
  \<^verbatim>\<open>_compose2(cmap1, cmap2)\<close>: the forward function applies \<open>cmap2\<close> first; the backward
  function exists when both maps have an inverse. Reading \<^verbatim>\<open>cmap1.inverse\<close> can raise.
\<close>

definition compose2 ::
  "'a::field cmap \<Rightarrow> 'a cmap \<Rightarrow>
   error + (('a list \<Rightarrow> error + 'a list) \<times> ('a list \<Rightarrow> error + 'a list) option)" where
  "compose2 cmap1 cmap2 =
     (let forward = then_apply (function_of cmap2) (function_of cmap1)
      in case inverse_of cmap1 of
           Inl e \<Rightarrow> Inl e
         | Inr None \<Rightarrow> Inr (forward, None)
         | Inr (Some i1) \<Rightarrow>
             (case inverse_of cmap2 of
                Inl e \<Rightarrow> Inl e
              | Inr None \<Rightarrow> Inr (forward, None)
              | Inr (Some i2) \<Rightarrow>
                  Inr (forward, Some (then_apply (function_of i1) (function_of i2)))))"

text \<open>
  The loop of \<^verbatim>\<open>compose\<close>: \<open>cmap\<close> is the map composed so far, the list holds the
  operands still to come, the next one first (the loop runs from the right).
\<close>

fun compose_loop :: "'a::field cmap \<Rightarrow> 'a cmap list \<Rightarrow> error + 'a cmap" where
  "compose_loop cmap [] = Inr cmap"
| "compose_loop cmap (m # ms) =
     (if coordsys_eq (input_coords m) (output_coords cmap)
      then (case compose2 m cmap of
              Inl e \<Rightarrow> Inl e
            | Inr (forward, backward) \<Rightarrow>
                (case CoordinateMap_init forward (input_coords cmap) (output_coords m) backward of
                   Inl e \<Rightarrow> Inl e
                 | Inr c \<Rightarrow> compose_loop c ms))
      else Inl (ValueError (coordinates_do_not_match (input_coords m) (output_coords cmap))))"

text \<open>\<^verbatim>\<open>compose(*cmaps)\<close>; \<^verbatim>\<open>cmaps[-1]\<close> raises \<^verbatim>\<open>IndexError\<close> without operands.\<close>

definition compose :: "'a::field cmap list \<Rightarrow> error + 'a cmap" where
  "compose cmaps =
     (case rev cmaps of
        [] \<Rightarrow> Inl IndexError
      | c # ms \<Rightarrow>
          (case compose_loop c ms of
             Inl e \<Rightarrow> Inl e
           | Inr cmap \<Rightarrow>
               if list_all is_affine cmaps
               then (case linearize (call cmap) (ndim (input_coords cmap)) 1 None
                            (Some (coord_dtype (output_coords cmap))) of
                       Inl e \<Rightarrow> Inl e
                     | Inr affine_arg \<Rightarrow>
                         AffineTransform_init affine_arg (input_coords cmap) (output_coords cmap))
               else Inr cmap))"

section \<open>Products\<close>

text \<open>\<^verbatim>\<open>np.cumsum\<close>.\<close>

fun cumsum_from :: "nat \<Rightarrow> nat list \<Rightarrow> nat list" where
  "cumsum_from acc [] = []"
| "cumsum_from acc (x # xs) = (acc + x) # cumsum_from (acc + x) xs"




section \<open>Reordering and renaming the input axes\<close>

text \<open>
  The argument \<open>order\<close> of \<^verbatim>\<open>reordered_input\<close>: \<^verbatim>\<open>None\<close>, a sequence of axis names or
  a sequence of integers. Python's indexing takes a negative index from the end and raises
  \<^verbatim>\<open>IndexError\<close> out of range.
\<close>

datatype order = Names "string list" | Positions "int list"

definition norm_index :: "nat \<Rightarrow> int \<Rightarrow> nat option" where
  "norm_index n i =
     (if 0 \<le> i \<and> i < int n then Some (nat i)
      else if - int n \<le> i \<and> i < 0 then Some (nat (int n + i))
      else None)"

definition py_index :: "'a list \<Rightarrow> int \<Rightarrow> error + 'a" where
  "py_index xs i = (case norm_index (length xs) i of None \<Rightarrow> Inl IndexError | Some k \<Rightarrow> Inr (xs ! k))"

definition set_item :: "'a list list \<Rightarrow> int \<Rightarrow> int \<Rightarrow> 'a \<Rightarrow> error + 'a list list" where
  "set_item M j i v =
     (case norm_index (length M) j of
        None \<Rightarrow> Inl IndexError
      | Some r \<Rightarrow>
          (case norm_index (length (M ! r)) i of
             None \<Rightarrow> Inl IndexError
           | Some c \<Rightarrow> Inr (M[r := (M ! r)[c := v]])))"

text \<open>The loop \<^verbatim>\<open>for i, j in enumerate(order): perm[j,i] = 1.\<close>\<close>

fun fill_perm :: "'a::field list list \<Rightarrow> (nat \<times> int) list \<Rightarrow> error + 'a list list" where
  "fill_perm perm [] = Inr perm"
| "fill_perm perm ((i, j) # rest) =
     (case set_item perm j (int i) 1 of
        Inl e \<Rightarrow> Inl e
      | Inr perm1 \<Rightarrow> fill_perm perm1 rest)"

definition zeros :: "nat \<Rightarrow> nat \<Rightarrow> 'a::field list list" where
  "zeros r c = replicate r (replicate c 0)"

text \<open>
  \<^verbatim>\<open>CoordinateMap.reordered_input(order=None, name='')\<close>, in two steps: the sequence of
  integers the argument \<open>order\<close> stands for (\<^verbatim>\<open>order[0]\<close> raises \<^verbatim>\<open>IndexError\<close> on an
  empty sequence), then the rest of the method on that sequence.
\<close>

definition order_positions :: "CoordinateSystem \<Rightarrow> order option \<Rightarrow> error + int list" where
  "order_positions cs order =
     (case order of
        None \<Rightarrow> Inr (rev (map int [0..<ndim cs]))
      | Some (Positions ps) \<Rightarrow> if ps = [] then Inl IndexError else Inr ps
      | Some (Names ss) \<Rightarrow>
          if ss = [] then Inl IndexError else apply_rows (coordsys_index cs) ss)"

definition reorder_axes :: "'a::field cmap \<Rightarrow> int list \<Rightarrow> string \<Rightarrow> error + 'a cmap" where
  "reorder_axes self ord nm1 =
     (let nd = ndim (input_coords self)
      in case apply_rows (py_index (coord_names (input_coords self))) ord of
           Inl e \<Rightarrow> Inl e
         | Inr newaxes \<Rightarrow>
             (let newincoords =
                    \<lparr>coord_names = newaxes, name = nm1,
                     coord_dtype = coord_dtype (input_coords self)\<rparr>
              in case set_item (zeros (nd + 1) (nd + 1)) (- 1) (- 1) 1 of
                   Inl e \<Rightarrow> Inl e
                 | Inr perm0 \<Rightarrow>
                     (case fill_perm perm0 (enumerate 0 ord) of
                        Inl e \<Rightarrow> Inl e
                      | Inr perm \<Rightarrow>
                          (case AffineTransform_init
                                  (Array (coord_dtype (input_coords self)) perm)
                                  newincoords (input_coords self) of
                             Inl e \<Rightarrow> Inl e
                           | Inr A \<Rightarrow> compose [self, A]))))"

definition reordered_input :: "'a::field cmap \<Rightarrow> order option \<Rightarrow> string \<Rightarrow> error + 'a cmap" where
  "reordered_input self order nm =
     (let nm1 = (if nm = [] then name (input_coords self) else nm)
      in case order_positions (input_coords self) order of
           Inl e \<Rightarrow> Inl e
         | Inr ord \<Rightarrow> reorder_axes self ord nm1)"

text \<open>
  \<^verbatim>\<open>CoordinateMap.renamed_input(newnames, name='')\<close>. The dictionary \<open>newnames\<close> is the
  list of its items in the order the dictionary iterates.
\<close>

definition renamed_input ::
  "'a::field cmap \<Rightarrow> (string \<times> string) list \<Rightarrow> string \<Rightarrow> error + 'a cmap" where
  "renamed_input self newnames nm =
     (let nm1 = (if nm = [] then name (input_coords self) else nm)
      in case find (\<lambda>n. n \<notin> set (coord_names (input_coords self))) (map fst newnames) of
           Some n \<Rightarrow> Inl (ValueError (no_input_coordinate_named n))
         | None \<Rightarrow>
             (let new_coord_names =
                    map (\<lambda>n. case map_of newnames n of Some v \<Rightarrow> v | None \<Rightarrow> n)
                      (coord_names (input_coords self));
                  new_input_coords =
                    \<lparr>coord_names = new_coord_names, name = nm1,
                     coord_dtype = coord_dtype (input_coords self)\<rparr>;
                  nd = ndim (input_coords self)
              in case AffineTransform_init (Array np_float (identity (nd + 1)))
                        new_input_coords (input_coords self) of
                   Inl e \<Rightarrow> Inl e
                 | Inr ident_map \<Rightarrow> compose [self, ident_map]))"

section \<open>Arrays in a store\<close>

text \<open>
  \<^verbatim>\<open>AffineTransform.copy\<close> is about which arrays are shared, so here the arrays live in a
  store, a transform holds the address of its matrix, and an assignment
  \<^verbatim>\<open>cm.affine[i, j] = v\<close> changes the store. The store is the list of the arrays
  allocated so far; an address is a position in it, and a new array goes to the end.
\<close>

type_synonym 'a store = "'a ndarray list"

record affine_object =
  affine_ref :: nat
  object_input_coords :: CoordinateSystem
  object_output_coords :: CoordinateSystem

definition alloc :: "'a store \<Rightarrow> 'a ndarray \<Rightarrow> 'a store \<times> nat" where
  "alloc s a = (s @ [a], length s)"

text \<open>\<^verbatim>\<open>arr.copy()\<close>: a new array with the same contents.\<close>

definition ndarray_copy :: "'a store \<Rightarrow> nat \<Rightarrow> 'a store \<times> nat" where
  "ndarray_copy s p = alloc s (s ! p)"

text \<open>
  \<^verbatim>\<open>np.asarray(arr, dtype=dtype)\<close>: the array itself when it already has the precision,
  a new array otherwise.
\<close>

definition np_asarray :: "'a store \<Rightarrow> nat \<Rightarrow> dtype \<Rightarrow> 'a store \<times> nat" where
  "np_asarray s p dt =
     (if dtype (s ! p) = dt then (s, p) else alloc s (Array dt (rows (s ! p))))"

text \<open>
  \<^verbatim>\<open>AffineTransform.__init__\<close> on an array of the store. The closure \<^verbatim>\<open>_function\<close>
  holds views \<open>A\<close>, \<open>b\<close> of the stored array, so the function of the object reads the store.
\<close>

definition AffineTransform_init_in ::
  "'a store \<Rightarrow> nat \<Rightarrow> CoordinateSystem \<Rightarrow> CoordinateSystem \<Rightarrow>
   error + ('a store \<times> affine_object)" where
  "AffineTransform_init_in s p ic oc =
     (let dt = safe_dtype [dtype (s ! p), coord_dtype ic, coord_dtype oc];
          inc = \<lparr>coord_names = coord_names ic, name = name ic, coord_dtype = dt\<rparr>;
          outc = \<lparr>coord_names = coord_names oc, name = name oc, coord_dtype = dt\<rparr>
      in case np_asarray s p dt of (s1, q) \<Rightarrow>
           if \<not> has_shape (rows (s1 ! q)) (ndim outc + 1) (ndim inc + 1)
           then Inl (ValueError lengths_do_not_match_affine_shape)
           else Inr (s1, \<lparr>affine_ref = q, object_input_coords = inc,
                          object_output_coords = outc\<rparr>))"

definition object_function :: "'a::field store \<Rightarrow> affine_object \<Rightarrow> 'a list \<Rightarrow> error + 'a list" where
  "object_function s t = affine_function (rows (s ! affine_ref t))"

text \<open>\<^verbatim>\<open>AffineTransform.copy\<close>.\<close>

definition copy_in :: "'a store \<Rightarrow> affine_object \<Rightarrow> error + ('a store \<times> affine_object)" where
  "copy_in s self =
     (case ndarray_copy s (affine_ref self) of (s1, p) \<Rightarrow>
        AffineTransform_init_in s1 p (object_input_coords self) (object_output_coords self))"

text \<open>The assignment \<^verbatim>\<open>arr[i, j] = v\<close> to the array at an address.\<close>

definition setitem_in :: "'a store \<Rightarrow> nat \<Rightarrow> int \<Rightarrow> int \<Rightarrow> 'a \<Rightarrow> error + 'a store" where
  "setitem_in s p i j v =
     (case set_item (rows (s ! p)) i j v of
        Inl e \<Rightarrow> Inl e
      | Inr M \<Rightarrow> Inr (s[p := Array (dtype (s ! p)) M]))"

text \<open>
  An object as the constructor leaves it: its matrix is in the store, has the shape of the
  coordinate systems and their precision.
\<close>

definition constructed :: "'a store \<Rightarrow> affine_object \<Rightarrow> bool" where
  "constructed s t \<longleftrightarrow>
     affine_ref t < length s \<and>
     has_shape (rows (s ! affine_ref t)) (ndim (object_output_coords t) + 1)
       (ndim (object_input_coords t) + 1) \<and>
     dtype (s ! affine_ref t) = coord_dtype (object_input_coords t) \<and>
     coord_dtype (object_output_coords t) = coord_dtype (object_input_coords t)"

section \<open>Notions used in the statements\<close>

definition error_of :: "'e + 'a \<Rightarrow> 'e option" where
  "error_of r = (case r of Inl e \<Rightarrow> Some e | Inr v \<Rightarrow> None)"

definition maps_points :: "('a list \<Rightarrow> error + 'b list) \<Rightarrow> nat \<Rightarrow> nat \<Rightarrow> bool" where
  "maps_points f n m \<longleftrightarrow> (\<forall>x. length x = n \<longrightarrow> (\<exists>y. f x = Inr y \<and> length y = m))"

fun well_formed :: "'a::field cmap \<Rightarrow> bool" where
  "well_formed (CoordinateMap f ic oc g) \<longleftrightarrow>
     maps_points f (ndim ic) (ndim oc) \<and>
     (case g of None \<Rightarrow> True | Some gi \<Rightarrow> maps_points gi (ndim oc) (ndim ic))"
| "well_formed (AffineTransform M ic oc) \<longleftrightarrow>
     has_shape M (ndim oc + 1) (ndim ic + 1) \<and> coord_dtype ic = coord_dtype oc"

fun seams_match :: "'a cmap list \<Rightarrow> bool" where
  "seams_match (a # b # rest) \<longleftrightarrow>
     coordsys_eq (input_coords a) (output_coords b) \<and> seams_match (b # rest)"
| "seams_match [a] \<longleftrightarrow> True"
| "seams_match [] \<longleftrightarrow> True"

fun chain_ok :: "'a cmap \<Rightarrow> 'a cmap list \<Rightarrow> bool" where
  "chain_ok c [] \<longleftrightarrow> True"
| "chain_ok c (m # ms) \<longleftrightarrow> coordsys_eq (input_coords m) (output_coords c) \<and> chain_ok m ms"



text \<open>The point \<open>origin + step * e\<^sub>i\<close>.\<close>

definition displaced :: "'a::field \<Rightarrow> 'a list \<Rightarrow> nat \<Rightarrow> 'a list" where
  "displaced step og i = map2 (+) (map ((*) step) (unit_vector (length og) i)) og"

text \<open>The homogeneous matrix \<open>[[A, b], [0, 1]]\<close> of a linear block of \<open>n\<close> columns.\<close>

definition homogeneous :: "nat \<Rightarrow> 'a::field list list \<Rightarrow> 'a list \<Rightarrow> 'a list list" where
  "homogeneous n A b = map2 (\<lambda>row t. row @ [t]) A b @ [replicate n 0 @ [1]]"









section \<open>Example transforms\<close>

definition axes :: "string list \<Rightarrow> dtype \<Rightarrow> CoordinateSystem" where
  "axes ns d = \<lparr>coord_names = ns, name = '''', coord_dtype = d\<rparr>"

text \<open>The map \<^verbatim>\<open>AffineTransform.from_params('i', 'x', np.diag([2., 1.]))\<close>.\<close>

definition scale_i_x :: "rat cmap" where
  "scale_i_x = AffineTransform [[2, 0], [0, 1]]
     \<lparr>coord_names = [''i''], name = ''input'', coord_dtype = float64\<rparr>
     \<lparr>coord_names = [''x''], name = ''output'', coord_dtype = float64\<rparr>"

text \<open>
  The map \<^verbatim>\<open>CoordinateMap(lambda x: x, CoordinateSystem('i', coord_dtype=np.float32),
  CoordinateSystem('x', coord_dtype=np.float32))\<close>.
\<close>

definition float32_map :: "rat cmap" where
  "float32_map = CoordinateMap (\<lambda>x. Inr x) (axes [''i''] float32) (axes [''x''] float32) None"


text \<open>
  The map \<^verbatim>\<open>AffineTransform(np.diag([1, 2, 3, 1]), CoordinateSystem('ijk'),
  CoordinateSystem('xyz'))\<close>.
\<close>

definition diag_ijk_xyz :: "rat cmap" where
  "diag_ijk_xyz =
     AffineTransform [[1, 0, 0, 0], [0, 2, 0, 0], [0, 0, 3, 0], [0, 0, 0, 1]]
       (axes [''i'', ''j'', ''k''] float64) (axes [''x'', ''y'', ''z''] float64)"




text \<open>
  The store holding the matrix of \<^verbatim>\<open>AffineTransform(np.eye(4), CoordinateSystem('ijk'),
  CoordinateSystem('xyz'))\<close>, and the transform.
\<close>

definition eye4_store :: "rat store" where
  "eye4_store = [Array float64 [[1, 0, 0, 0], [0, 1, 0, 0], [0, 0, 1, 0], [0, 0, 0, 1]]]"

definition eye4_object :: affine_object where
  "eye4_object = \<lparr>affine_ref = 0, object_input_coords = axes [''i'', ''j'', ''k''] float64,
     object_output_coords = axes [''x'', ''y'', ''z''] float64\<rparr>"


section \<open>Basic facts\<close>

lemma error_ofD: "error_of r = Some e \<Longrightarrow> r = Inl e"
  by (cases r) (simp_all add: error_of_def)

lemma safe_dtype_same: "safe_dtype [d, d, d] = d"
  by (cases d) (simp_all add: safe_dtype_def promote_def)

lemma has_shape_nth: "has_shape M r c \<Longrightarrow> i < r \<Longrightarrow> length (M ! i) = c"
  by (simp add: has_shape_def list_all_length)

lemma has_shape_iff: "has_shape M r c \<longleftrightarrow> length M = r \<and> (\<forall>i<r. length (M ! i) = c)"
  by (auto simp add: has_shape_def list_all_length)


lemma apply_rows_nth: "apply_rows f xs = Inr ys \<Longrightarrow> i < length xs \<Longrightarrow> f (xs ! i) = Inr (ys ! i)"
proof (induction xs arbitrary: ys i)
  case Nil
  then show ?case by simp
next
  case (Cons x xs)
  then show ?case by (cases i) (auto split: sum.splits)
qed

lemma apply_rows_map: "(\<And>x. x \<in> set xs \<Longrightarrow> f x = Inr (g x)) \<Longrightarrow> apply_rows f xs = Inr (map g xs)"
  by (induction xs) auto


lemma maps_pointsD: "maps_points f n m \<Longrightarrow> length x = n \<Longrightarrow> \<exists>y. f x = Inr y \<and> length y = m"
  by (simp add: maps_points_def)

lemma to_matrix_vector_shape:
  assumes "has_shape M (m + 1) (n + 1)"
  shows "has_shape (fst (to_matrix_vector M)) m n" and "length (snd (to_matrix_vector M)) = m"
  using assms by (auto simp add: to_matrix_vector_def has_shape_def list_all_iff dest: in_set_butlastD)

lemma affine_function_maps:
  assumes "has_shape M (m + 1) (n + 1)"
  shows "maps_points (affine_function M) n m"
proof -
  obtain A b where Ab: "to_matrix_vector M = (A, b)" by (cases "to_matrix_vector M")
  from to_matrix_vector_shape[OF assms] Ab have "has_shape A m n" "length b = m" by simp_all
  then show ?thesis
    by (auto simp add: maps_points_def affine_function_def Ab has_shape_def)
qed

lemma well_formed_maps:
  "well_formed c \<Longrightarrow> maps_points (function_of c) (ndim (input_coords c)) (ndim (output_coords c))"
  by (cases c) (auto intro: affine_function_maps)

lemma call_well_formed:
  assumes "maps_points (function_of c) (ndim (input_coords c)) (ndim (output_coords c))"
    and "list_all (\<lambda>row. length row = ndim (input_coords c)) xs"
  shows "\<exists>ys. call c xs = Inr ys \<and> apply_rows (function_of c) xs = Inr ys \<and>
     list_all (\<lambda>row. length row = ndim (output_coords c)) ys"
proof -
  have "\<exists>ys. apply_rows (function_of c) xs = Inr ys \<and>
     list_all (\<lambda>row. length row = ndim (output_coords c)) ys"
    using assms(2)
  proof (induction xs)
    case Nil
    then show ?case by simp
  next
    case (Cons x xs)
    then obtain ys where ys: "apply_rows (function_of c) xs = Inr ys"
      "list_all (\<lambda>row. length row = ndim (output_coords c)) ys" by auto
    from Cons.prems maps_pointsD[OF assms(1), of x]
    obtain y where "function_of c x = Inr y" "length y = ndim (output_coords c)" by auto
    with ys show ?case by simp
  qed
  then show ?thesis using assms(2) by (auto simp add: call_def checked_values_def)
qed

lemma checkfunction_ok:
  assumes "maps_points (function_of c) (ndim (input_coords c)) (ndim (output_coords c))"
  shows "checkfunction c = Inr ()"
proof -
  have "list_all (\<lambda>row. length row = ndim (input_coords c))
          (replicate 10 (replicate (ndim (input_coords c)) 0))"
    by (simp add: list_all_iff)
  from call_well_formed[OF assms this] show ?thesis
    by (auto simp add: checkfunction_def)
qed

lemma CoordinateMap_init_ok:
  "maps_points f (ndim ic) (ndim oc) \<Longrightarrow> CoordinateMap_init f ic oc g = Inr (CoordinateMap f ic oc g)"
  using checkfunction_ok[of "CoordinateMap f ic oc g"] by (simp add: CoordinateMap_init_def)

lemma CoordinateMap_init_Inr:
  "CoordinateMap_init f ic oc g = Inr c \<Longrightarrow> c = CoordinateMap f ic oc g"
  by (auto simp add: CoordinateMap_init_def split: sum.splits)

lemma AffineTransform_init_Inr:
  assumes "AffineTransform_init a ic oc = Inr t"
  shows "t = AffineTransform (rows a)
           \<lparr>coord_names = coord_names ic, name = name ic,
            coord_dtype = safe_dtype [dtype a, coord_dtype ic, coord_dtype oc]\<rparr>
           \<lparr>coord_names = coord_names oc, name = name oc,
            coord_dtype = safe_dtype [dtype a, coord_dtype ic, coord_dtype oc]\<rparr>"
    and "has_shape (rows a) (ndim oc + 1) (ndim ic + 1)"
  using assms by (auto simp add: AffineTransform_init_def Let_def ndim_def split: if_splits)

lemma AffineTransform_init_well_formed:
  "AffineTransform_init a ic oc = Inr t \<Longrightarrow> well_formed t"
  by (auto simp add: AffineTransform_init_def Let_def ndim_def split: if_splits)

lemma AffineTransform_init_ok:
  assumes "has_shape M (ndim oc + 1) (ndim ic + 1)" and "coord_dtype ic = d" and "coord_dtype oc = d"
  shows "AffineTransform_init (Array d M) ic oc = Inr (AffineTransform M ic oc)"
  using assms by (simp add: AffineTransform_init_def Let_def ndim_def safe_dtype_same)

lemma then_apply_maps:
  "maps_points f n m \<Longrightarrow> maps_points g m k \<Longrightarrow> maps_points (then_apply f g) n k"
  unfolding maps_points_def then_apply_def by (metis sum.simps(6))

lemma find_pivot_Some: "find_pivot k R = Some p \<Longrightarrow> k \<le> p \<and> p < length R \<and> R ! p ! k \<noteq> 0"
  by (auto simp add: find_pivot_def find_Some_iff)


lemma swap_rows_shape: "has_shape R n w \<Longrightarrow> k < n \<Longrightarrow> p < n \<Longrightarrow> has_shape (swap_rows k p R) n w"
  by (auto simp add: has_shape_iff swap_rows_def nth_list_update)

lemma eliminate_shape: "has_shape R n w \<Longrightarrow> k < n \<Longrightarrow> has_shape (eliminate k R) n w"
  by (auto simp add: has_shape_iff eliminate_def Let_def)

lemma gauss_jordan_shape:
  "gauss_jordan m k R = Some R' \<Longrightarrow> has_shape R n w \<Longrightarrow> k + m \<le> n \<Longrightarrow> has_shape R' n w"
proof (induction m arbitrary: k R)
  case 0
  then show ?case by simp
next
  case (Suc m)
  from Suc.prems(1) obtain p where p: "find_pivot k R = Some p"
    and rec: "gauss_jordan m (Suc k) (eliminate k (swap_rows k p R)) = Some R'"
    by (auto split: option.splits)
  from find_pivot_Some[OF p] Suc.prems(2) have "p < n" by (simp add: has_shape_iff)
  with Suc.prems have "has_shape (eliminate k (swap_rows k p R)) n w"
    by (intro eliminate_shape swap_rows_shape) simp_all
  from Suc.IH[OF rec this] Suc.prems(3) show ?case by simp
qed

lemma identity_shape: "has_shape (identity n) n n"
  by (simp add: has_shape_iff identity_def unit_vector_def)

lemma identity_length [simp]: "length (identity n) = n"
  by (simp add: identity_def)

lemma identity_row_length [simp]: "i < n \<Longrightarrow> length (identity n ! i) = n"
  by (simp add: identity_def unit_vector_def)

lemma augmented_shape: "has_shape M n n \<Longrightarrow> has_shape (map2 (@) M (identity n)) n (n + n)"
  by (auto simp add: has_shape_iff)

lemma linalg_inv_cases:
  "linalg_inv a = Inl LinAlgError \<or>
   (\<exists>N. linalg_inv a = Inr (Array (dtype a) N) \<and> has_shape (rows a) (length (rows a)) (length (rows a))
      \<and> has_shape N (length (rows a)) (length (rows a)))"
proof (cases "has_shape (rows a) (length (rows a)) (length (rows a))")
  case False
  then show ?thesis by (simp add: linalg_inv_def Let_def)
next
  case True
  let ?n = "length (rows a)"
  show ?thesis
  proof (cases "gauss_jordan ?n 0 (map2 (@) (rows a) (identity ?n))")
    case None
    then show ?thesis using True by (simp add: linalg_inv_def Let_def)
  next
    case (Some R)
    have "has_shape (map2 (@) (rows a) (identity ?n)) ?n (?n + ?n)"
      using True by (rule augmented_shape)
    from gauss_jordan_shape[OF Some this] have "has_shape R ?n (?n + ?n)" by simp
    then have "has_shape (map (drop ?n) R) ?n ?n" by (simp add: has_shape_iff)
    then show ?thesis using True Some by (simp add: linalg_inv_def Let_def)
  qed
qed

lemma inverse_of_well_formed:
  assumes "well_formed c"
  shows "inverse_of c = Inr None \<or>
    (\<exists>t. inverse_of c = Inr (Some t) \<and> well_formed t \<and>
       input_coords t = output_coords c \<and> output_coords t = input_coords c)"
proof (cases c)
  case (CoordinateMap f ic oc g)
  show ?thesis
  proof (cases g)
    case None
    then show ?thesis using CoordinateMap by simp
  next
    case (Some gi)
    with assms CoordinateMap have "maps_points gi (ndim oc) (ndim ic)" "maps_points f (ndim ic) (ndim oc)"
      by simp_all
    then show ?thesis using CoordinateMap Some
      by (simp add: CoordinateMap_init_ok)
  qed
next
  case (AffineTransform M ic oc)
  with assms have sh: "has_shape M (ndim oc + 1) (ndim ic + 1)" and dt: "coord_dtype ic = coord_dtype oc"
    by simp_all
  let ?a = "affine_array (AffineTransform M ic oc)"
  have a: "rows ?a = M" "dtype ?a = coord_dtype ic" by (simp_all add: affine_array_def)
  from linalg_inv_cases[of ?a] show ?thesis
  proof
    assume "linalg_inv ?a = Inl LinAlgError"
    then show ?thesis using AffineTransform by simp
  next
    assume "\<exists>N. linalg_inv ?a = Inr (Array (dtype ?a) N) \<and>
       has_shape (rows ?a) (length (rows ?a)) (length (rows ?a)) \<and>
       has_shape N (length (rows ?a)) (length (rows ?a))"
    then obtain N where N: "linalg_inv ?a = Inr (Array (coord_dtype ic) N)"
      and sq: "has_shape M (length M) (length M)" and shN: "has_shape N (length M) (length M)"
      using a by auto
    from sh sq have "length M = ndim oc + 1" "ndim ic = ndim oc"
      by (auto simp add: has_shape_iff)
    with shN have "has_shape N (ndim ic + 1) (ndim oc + 1)" by simp
    from AffineTransform_init_ok[OF this dt[symmetric] refl]
    have "AffineTransform_init (Array (coord_dtype ic) N) oc ic = Inr (AffineTransform N oc ic)"
      by simp
    moreover have "well_formed (AffineTransform N oc ic)"
      using \<open>has_shape N (ndim ic + 1) (ndim oc + 1)\<close> dt by simp
    ultimately show ?thesis using AffineTransform N by simp
  qed
qed

lemma coordsys_eq_ndim: "coordsys_eq a b \<Longrightarrow> ndim a = ndim b"
  by (simp add: coordsys_eq_def ndim_def)

lemma compose2_well_formed:
  assumes "well_formed m" and "well_formed cmap"
    and "coordsys_eq (input_coords m) (output_coords cmap)"
  shows "\<exists>bw. compose2 m cmap = Inr (then_apply (function_of cmap) (function_of m), bw) \<and>
     (case bw of None \<Rightarrow> True
      | Some g \<Rightarrow> maps_points g (ndim (output_coords m)) (ndim (input_coords cmap)))"
proof -
  note nd = coordsys_eq_ndim[OF assms(3)]
  from inverse_of_well_formed[OF assms(1)] show ?thesis
  proof
    assume "inverse_of m = Inr None"
    then show ?thesis by (simp add: compose2_def)
  next
    assume "\<exists>t. inverse_of m = Inr (Some t) \<and> well_formed t \<and>
       input_coords t = output_coords m \<and> output_coords t = input_coords m"
    then obtain i1 where i1: "inverse_of m = Inr (Some i1)" "well_formed i1"
      "input_coords i1 = output_coords m" "output_coords i1 = input_coords m" by auto
    from inverse_of_well_formed[OF assms(2)] show ?thesis
    proof
      assume "inverse_of cmap = Inr None"
      then show ?thesis using i1 by (simp add: compose2_def)
    next
      assume "\<exists>t. inverse_of cmap = Inr (Some t) \<and> well_formed t \<and>
         input_coords t = output_coords cmap \<and> output_coords t = input_coords cmap"
      then obtain i2 where i2: "inverse_of cmap = Inr (Some i2)" "well_formed i2"
        "input_coords i2 = output_coords cmap" "output_coords i2 = input_coords cmap" by auto
      have "maps_points (then_apply (function_of i1) (function_of i2))
              (ndim (output_coords m)) (ndim (input_coords cmap))"
        using well_formed_maps[OF i1(2)] well_formed_maps[OF i2(2)] i1(3,4) i2(3,4) nd
        by (auto intro: then_apply_maps)
      then show ?thesis using i1 i2 by (simp add: compose2_def)
    qed
  qed
qed


lemma compose_loop_Inr_chain: "compose_loop c ms = Inr r \<Longrightarrow> chain_ok c ms"
proof (induction ms arbitrary: c)
  case Nil
  then show ?case by simp
next
  case (Cons m ms)
  from Cons.prems have eq: "coordsys_eq (input_coords m) (output_coords c)"
    by (simp split: if_splits)
  from Cons.prems eq obtain fw bw c1 where "compose2 m c = Inr (fw, bw)"
    and c1: "CoordinateMap_init fw (input_coords c) (output_coords m) bw = Inr c1"
    and rec: "compose_loop c1 ms = Inr r"
    by (auto split: sum.splits)
  from CoordinateMap_init_Inr[OF c1] have "output_coords c1 = output_coords m" by simp
  with Cons.IH[OF rec] have "chain_ok m ms" by (cases ms) simp_all
  with eq show ?case by simp
qed

lemma seams_match_snoc:
  "seams_match (xs @ [m, c]) \<longleftrightarrow> seams_match (xs @ [m]) \<and> coordsys_eq (input_coords m) (output_coords c)"
  by (induction xs rule: seams_match.induct) auto

lemma chain_ok_seams: "chain_ok c ms \<longleftrightarrow> seams_match (rev (c # ms))"
proof (induction ms arbitrary: c)
  case Nil
  then show ?case by simp
next
  case (Cons m ms)
  have "seams_match (rev (c # m # ms)) = seams_match (rev ms @ [m, c])" by simp
  also have "\<dots> \<longleftrightarrow> seams_match (rev ms @ [m]) \<and> coordsys_eq (input_coords m) (output_coords c)"
    by (rule seams_match_snoc)
  finally show ?case using Cons.IH[of m] by auto
qed

section \<open>Composition across a seam\<close>

lemma seams_match_nth:
  "seams_match cmaps \<Longrightarrow> i + 1 < length cmaps \<Longrightarrow>
   coordsys_eq (input_coords (cmaps ! i)) (output_coords (cmaps ! (i + 1)))"
proof (induction cmaps arbitrary: i rule: seams_match.induct)
  case (1 a b rest)
  then show ?case by (cases i) auto
qed simp_all

lemma compose_Inr_seams:
  assumes "compose cmaps = Inr r"
  shows "seams_match cmaps"
proof -
  from assms obtain c ms r1 where rv: "rev cmaps = c # ms" and "compose_loop c ms = Inr r1"
    by (auto simp add: compose_def split: list.splits sum.splits)
  then have "chain_ok c ms" by (simp add: compose_loop_Inr_chain)
  then have "seams_match (rev (c # ms))" by (simp add: chain_ok_seams)
  with rv show ?thesis by (metis rev_rev_ident)
qed

lemma compose_loop_mismatch:
  assumes "well_formed c" and "list_all well_formed ms" and "\<not> chain_ok c ms"
  shows "\<exists>k<length ms. \<not> coordsys_eq (input_coords (ms ! k)) (output_coords ((c # ms) ! k)) \<and>
     compose_loop c ms =
       Inl (ValueError (coordinates_do_not_match (input_coords (ms ! k))
                          (output_coords ((c # ms) ! k))))"
  using assms
proof (induction ms arbitrary: c)
  case Nil
  then show ?case by simp
next
  case (Cons m ms)
  show ?case
  proof (cases "coordsys_eq (input_coords m) (output_coords c)")
    case False
    then have "\<not> coordsys_eq (input_coords ((m # ms) ! 0)) (output_coords ((c # m # ms) ! 0)) \<and>
      compose_loop c (m # ms) =
       Inl (ValueError (coordinates_do_not_match (input_coords ((m # ms) ! 0))
                          (output_coords ((c # m # ms) ! 0))))"
      by simp
    then show ?thesis by blast
  next
    case True
    from Cons.prems have wm: "well_formed m" and rest: "list_all well_formed ms"
      and nch: "\<not> chain_ok m ms" using True by simp_all
    from compose2_well_formed[OF wm Cons.prems(1) True] obtain bw where
      bw: "compose2 m c = Inr (then_apply (function_of c) (function_of m), bw)"
      "case bw of None \<Rightarrow> True
        | Some g \<Rightarrow> maps_points g (ndim (output_coords m)) (ndim (input_coords c))"
      by auto
    let ?fw = "then_apply (function_of c) (function_of m)"
    let ?c1 = "CoordinateMap ?fw (input_coords c) (output_coords m) bw"
    have fw: "maps_points ?fw (ndim (input_coords c)) (ndim (output_coords m))"
      using well_formed_maps[OF Cons.prems(1)] well_formed_maps[OF wm] coordsys_eq_ndim[OF True]
      by (auto intro: then_apply_maps)
    have init: "CoordinateMap_init ?fw (input_coords c) (output_coords m) bw = Inr ?c1"
      by (rule CoordinateMap_init_ok[OF fw])
    have w1: "well_formed ?c1" using fw bw(2) by simp
    have nch1: "\<not> chain_ok ?c1 ms" using nch by (cases ms) simp_all
    from Cons.IH[OF w1 rest nch1] obtain k where k: "k < length ms"
      "\<not> coordsys_eq (input_coords (ms ! k)) (output_coords ((?c1 # ms) ! k))"
      "compose_loop ?c1 ms =
         Inl (ValueError (coordinates_do_not_match (input_coords (ms ! k))
                            (output_coords ((?c1 # ms) ! k))))" by auto
    have oc: "output_coords ((?c1 # ms) ! k) = output_coords ((m # ms) ! k)"
      by (cases k) simp_all
    have "compose_loop c (m # ms) = compose_loop ?c1 ms" using True bw(1) init by simp
    with k oc have "Suc k < length (m # ms) \<and>
      \<not> coordsys_eq (input_coords ((m # ms) ! Suc k)) (output_coords ((c # m # ms) ! Suc k)) \<and>
      compose_loop c (m # ms) =
       Inl (ValueError (coordinates_do_not_match (input_coords ((m # ms) ! Suc k))
                          (output_coords ((c # m # ms) ! Suc k))))"
      by simp
    then show ?thesis by blast
  qed
qed

section \<open>Success of composition and of reordering\<close>

















section \<open>Affine functions and matrix products\<close>

lemma dot_sum: "length u = length v \<Longrightarrow> dot u v = (\<Sum>k<length u. u ! k * v ! k)"
proof -
  assume l: "length u = length v"
  have "dot u v = (\<Sum>i = 0..<length (map2 (*) u v). map2 (*) u v ! i)"
    unfolding dot_def by (rule sum_list_sum_nth)
  also have "\<dots> = (\<Sum>k<length u. u ! k * v ! k)"
    using l by (intro sum.cong) (auto simp add: atLeast0LessThan)
  finally show ?thesis .
qed

lemma affine_function_nth:
  assumes sh: "has_shape M (m + 1) (n + 1)" and x: "length x = n"
  shows "affine_function M x = Inr (map (\<lambda>j. (\<Sum>k<n. x ! k * M ! j ! k) + M ! j ! n) [0..<m])"
proof -
  let ?A = "map butlast (butlast M)" and ?b = "map last (butlast M)"
  have lM: "length M = m + 1" and rows: "\<And>j. j < m + 1 \<Longrightarrow> length (M ! j) = n + 1"
    using sh by (simp_all add: has_shape_iff)
  have bl: "\<And>j. j < m \<Longrightarrow> butlast M ! j = M ! j" using lM by (simp add: nth_butlast)
  have A: "list_all (\<lambda>row. length row = length x) ?A"
    using lM rows x bl by (simp add: list_all_length)
  have "map2 (+) (map (dot x) ?A) ?b = map (\<lambda>j. (\<Sum>k<n. x ! k * M ! j ! k) + M ! j ! n) [0..<m]"
  proof (rule nth_equalityI)
    show "length (map2 (+) (map (dot x) ?A) ?b) =
        length (map (\<lambda>j. (\<Sum>k<n. x ! k * M ! j ! k) + M ! j ! n) [0..<m])"
      using lM by simp
  next
    fix j assume "j < length (map2 (+) (map (dot x) ?A) ?b)"
    then have j: "j < m" using lM by simp
    have len: "length (butlast (M ! j)) = n" using rows[of j] j by simp
    have "dot x (butlast (M ! j)) = (\<Sum>k<n. x ! k * butlast (M ! j) ! k)"
      using dot_sum[of x "butlast (M ! j)"] len x by simp
    also have "\<dots> = (\<Sum>k<n. x ! k * M ! j ! k)"
      using len by (intro sum.cong) (simp_all add: nth_butlast)
    finally have d: "dot x (butlast (M ! j)) = (\<Sum>k<n. x ! k * M ! j ! k)" .
    have "M ! j \<noteq> []" using rows[of j] j by auto
    then have l: "last (M ! j) = M ! j ! n" using rows[of j] j by (simp add: last_conv_nth)
    show "map2 (+) (map (dot x) ?A) ?b ! j =
        map (\<lambda>j. (\<Sum>k<n. x ! k * M ! j ! k) + M ! j ! n) [0..<m] ! j"
      using j lM bl d l by simp
  qed
  then show ?thesis using A by (simp add: affine_function_def to_matrix_vector_def)
qed









section \<open>Linearization of a function\<close>







lemma displaced_length [simp]: "length (displaced step og i) = length og"
  by (simp add: displaced_def unit_vector_def)





lemma homogeneous_shape:
  assumes "has_shape A m n" and "length b = m"
  shows "has_shape (homogeneous n A b) (m + 1) (n + 1)"
  using assms by (auto simp add: has_shape_iff homogeneous_def nth_append)

lemma homogeneous_entry:
  assumes "has_shape A m n" and "length b = m" and "j < m"
  shows "k < n \<Longrightarrow> homogeneous n A b ! j ! k = A ! j ! k"
    and "homogeneous n A b ! j ! n = b ! j"
  using assms by (simp_all add: has_shape_iff homogeneous_def nth_append)

lemma call_affine_point:
  assumes sh: "has_shape M (ndim oc + 1) (ndim ic + 1)" and x: "length x = ndim ic"
  shows "call (AffineTransform M ic oc) [x] =
     Inr [map (\<lambda>j. (\<Sum>k<ndim ic. x ! k * M ! j ! k) + M ! j ! ndim ic) [0..<ndim oc]]"
  using affine_function_nth[OF sh x] x by (simp add: call_def checked_values_def)

section \<open>Chains of affine transforms\<close>





section \<open>Products of transforms\<close>



lemma cumsum_from_length [simp]: "length (cumsum_from a ns) = length ns"
  by (induction ns arbitrary: a) simp_all




lemma dot_zeros [simp]: "dot v (replicate k 0) = 0"
proof -
  have "sum_list (map2 (*) v (replicate k 0)) = 0"
  proof (induction v arbitrary: k)
    case Nil
    then show ?case by simp
  next
    case (Cons a v)
    show ?case by (cases k) (simp_all add: Cons.IH)
  qed
  then show ?thesis by (simp add: dot_def)
qed

lemma map2_fst: "length xs = length ys \<Longrightarrow> map2 (\<lambda>x y. f x) xs ys = map f xs"
  by (induction xs ys rule: list_induct2) simp_all

lemma map2_snd: "length xs = length ys \<Longrightarrow> map2 (\<lambda>x y. f y) xs ys = map f ys"
  by (induction xs ys rule: list_induct2) simp_all













section \<open>Gauss-Jordan elimination\<close>

















subsection \<open>The inverse of an affine transform\<close>




text \<open>
  C5. When two adjacent operands of \<^verbatim>\<open>compose\<close> do not match (the input coordinates of
  one are not the output coordinates of the next), \<^verbatim>\<open>compose\<close> never returns a map; and
  for operands that are transforms in the sense of the data model (their functions map
  points of the input space to points of the output space) the error is the
  \<^verbatim>\<open>ValueError\<close> whose message prints the two coordinate systems of a seam that does not
  match.
\<close>

theorem compose_mismatched_seam:
  assumes "i + 1 < length cmaps"
    and "\<not> coordsys_eq (input_coords (cmaps ! i)) (output_coords (cmaps ! (i + 1)))"
  shows "(\<exists>e. compose cmaps = Inl e) \<and>
    (list_all well_formed cmaps \<longrightarrow>
      (\<exists>j. j + 1 < length cmaps \<and>
         \<not> coordsys_eq (input_coords (cmaps ! j)) (output_coords (cmaps ! (j + 1))) \<and>
         compose cmaps =
           Inl (ValueError (coordinates_do_not_match (input_coords (cmaps ! j))
                              (output_coords (cmaps ! (j + 1)))))))"
proof
  have ns: "\<not> seams_match cmaps" using assms seams_match_nth by blast
  show "\<exists>e. compose cmaps = Inl e"
  proof (cases "compose cmaps")
    case (Inl e)
    then show ?thesis by simp
  next
    case (Inr r)
    with ns compose_Inr_seams show ?thesis by blast
  qed
  show "list_all well_formed cmaps \<longrightarrow>
      (\<exists>j. j + 1 < length cmaps \<and>
         \<not> coordsys_eq (input_coords (cmaps ! j)) (output_coords (cmaps ! (j + 1))) \<and>
         compose cmaps =
           Inl (ValueError (coordinates_do_not_match (input_coords (cmaps ! j))
                              (output_coords (cmaps ! (j + 1))))))"
  proof
    assume wf: "list_all well_formed cmaps"
    from assms(1) obtain c ms where rv: "rev cmaps = c # ms" by (cases "rev cmaps") auto
    then have cm: "cmaps = rev (c # ms)" by (metis rev_rev_ident)
    from wf cm have wc: "well_formed c" and wms: "list_all well_formed ms"
      by (simp_all add: list_all_iff)
    from ns cm have "\<not> chain_ok c ms" by (simp only: chain_ok_seams not_False_eq_True)
    from compose_loop_mismatch[OF wc wms this] obtain k where k: "k < length ms"
      "\<not> coordsys_eq (input_coords (ms ! k)) (output_coords ((c # ms) ! k))"
      "compose_loop c ms =
         Inl (ValueError (coordinates_do_not_match (input_coords (ms ! k))
                            (output_coords ((c # ms) ! k))))" by auto
    let ?n = "length cmaps"
    let ?j = "?n - 2 - k"
    have len: "?n = Suc (length ms)" using cm by simp
    have j1: "?j + 1 < ?n" using k(1) len by simp
    have a: "cmaps ! ?j = ms ! k"
    proof -
      have "cmaps ! ?j = rev (c # ms) ! ?j" using cm by simp
      also have "\<dots> = (c # ms) ! (length (c # ms) - Suc ?j)"
        using j1 len by (subst rev_nth) simp_all
      also have "length (c # ms) - Suc ?j = Suc k" using k(1) len by simp
      finally show ?thesis by simp
    qed
    have b: "cmaps ! (?j + 1) = (c # ms) ! k"
    proof -
      have "cmaps ! (?j + 1) = rev (c # ms) ! (?j + 1)" using cm by simp
      also have "\<dots> = (c # ms) ! (length (c # ms) - Suc (?j + 1))"
        using j1 len by (subst rev_nth) simp_all
      also have "length (c # ms) - Suc (?j + 1) = k" using k(1) len by simp
      finally show ?thesis by simp
    qed
    have "compose cmaps =
         Inl (ValueError (coordinates_do_not_match (input_coords (ms ! k))
                            (output_coords ((c # ms) ! k))))"
      using rv k(3) by (simp add: compose_def)
    with k(2) a b j1 show "\<exists>j. j + 1 < length cmaps \<and>
         \<not> coordsys_eq (input_coords (cmaps ! j)) (output_coords (cmaps ! (j + 1))) \<and>
         compose cmaps =
           Inl (ValueError (coordinates_do_not_match (input_coords (cmaps ! j))
                              (output_coords (cmaps ! (j + 1)))))"
      by metis
  qed
qed

theorem compose_mismatched_seam_witness:
  "(\<exists>e. compose [scale_i_x, scale_i_x] = Inl e) \<and>
   compose [scale_i_x, scale_i_x] =
     Inl (ValueError (coordinates_do_not_match (input_coords scale_i_x) (output_coords scale_i_x)))"
proof -
  have h1: "0 + 1 < length [scale_i_x, scale_i_x]" by simp
  have h2: "\<not> coordsys_eq (input_coords ([scale_i_x, scale_i_x] ! 0))
               (output_coords ([scale_i_x, scale_i_x] ! (0 + 1)))"
    by (simp add: scale_i_x_def coordsys_eq_def)
  have wf: "list_all well_formed [scale_i_x, scale_i_x]"
    by (simp add: scale_i_x_def has_shape_def ndim_def)
  from compose_mismatched_seam[OF h1 h2] wf obtain j where
    j: "j + 1 < length [scale_i_x, scale_i_x]"
    "compose [scale_i_x, scale_i_x] =
       Inl (ValueError (coordinates_do_not_match (input_coords ([scale_i_x, scale_i_x] ! j))
              (output_coords ([scale_i_x, scale_i_x] ! (j + 1)))))"
    by blast
  from j(1) have "j = 0" by simp
  with j(2) show ?thesis by simp
qed



text \<open>
  C2. An \<^verbatim>\<open>AffineTransform\<close> constructed from the homogeneous matrix \<open>[[A, b], [0, 1]]\<close>,
  called on a point \<open>x\<close> of its input space, returns \<open>x A\<^sup>T + b\<close>: component \<open>j\<close> is the sum of
  \<open>x\<^sub>k A\<^sub>j\<^sub>k\<close> plus \<open>b\<^sub>j\<close>. The transform of \<^verbatim>\<open>diag(1, 2, 3, 1)\<close> from \<^verbatim>\<open>ijk\<close> to
  \<^verbatim>\<open>xyz\<close> maps \<open>[1, 1, 1]\<close> to \<open>[1, 2, 3]\<close>, and its inverse maps \<open>[1, 2, 3]\<close> to
  \<open>[1, 1, 1]\<close>.
\<close>

theorem affine_call:
  assumes "has_shape A (ndim oc) (ndim ic)" and "length b = ndim oc"
    and "AffineTransform_init (Array d (homogeneous (ndim ic) A b)) ic oc = Inr t"
    and "length x = ndim ic"
  shows "call t [x] = Inr [map (\<lambda>j. (\<Sum>k<ndim ic. x ! k * A ! j ! k) + b ! j) [0..<ndim oc]] \<and>
    AffineTransform_init (Array float64 [[1, 0, 0, 0], [0, 2, 0, 0], [0, 0, 3, 0], [0, 0, 0, 1]])
       (axes [''i'', ''j'', ''k''] float64) (axes [''x'', ''y'', ''z''] float64) = Inr diag_ijk_xyz \<and>
    call diag_ijk_xyz [[1, 1, 1]] = Inr [[1, 2, 3]] \<and>
    (\<exists>ti. inverse_of diag_ijk_xyz = Inr (Some ti) \<and> call ti [[1, 2, 3]] = Inr [[1, 1, 1]])"
proof (intro conjI)
  let ?H = "homogeneous (ndim ic) A b"
  let ?dt = "safe_dtype [d, coord_dtype ic, coord_dtype oc]"
  let ?ic = "\<lparr>coord_names = coord_names ic, name = name ic, coord_dtype = ?dt\<rparr>"
  let ?oc = "\<lparr>coord_names = coord_names oc, name = name oc, coord_dtype = ?dt\<rparr>"
  have t: "t = AffineTransform ?H ?ic ?oc"
    using AffineTransform_init_Inr(1)[OF assms(3)] by simp
  have nd: "ndim ?ic = ndim ic" "ndim ?oc = ndim oc" by (simp_all add: ndim_def)
  have sh: "has_shape ?H (ndim ?oc + 1) (ndim ?ic + 1)"
    unfolding nd by (rule homogeneous_shape[OF assms(1,2)])
  have "call t [x] =
     Inr [map (\<lambda>j. (\<Sum>k<ndim ic. x ! k * ?H ! j ! k) + ?H ! j ! ndim ic) [0..<ndim oc]]"
    using call_affine_point[OF sh, of x] assms(4) unfolding t nd by simp
  moreover have "map (\<lambda>j. (\<Sum>k<ndim ic. x ! k * ?H ! j ! k) + ?H ! j ! ndim ic) [0..<ndim oc] =
      map (\<lambda>j. (\<Sum>k<ndim ic. x ! k * A ! j ! k) + b ! j) [0..<ndim oc]"
  proof (intro map_cong refl)
    fix j assume "j \<in> set [0..<ndim oc]"
    then have j: "j < ndim oc" by simp
    have "(\<Sum>k<ndim ic. x ! k * ?H ! j ! k) = (\<Sum>k<ndim ic. x ! k * A ! j ! k)"
      by (intro sum.cong refl) (simp add: homogeneous_entry(1)[OF assms(1,2) j])
    then show "(\<Sum>k<ndim ic. x ! k * ?H ! j ! k) + ?H ! j ! ndim ic =
        (\<Sum>k<ndim ic. x ! k * A ! j ! k) + b ! j"
      by (simp add: homogeneous_entry(2)[OF assms(1,2) j])
  qed
  ultimately show "call t [x] =
      Inr [map (\<lambda>j. (\<Sum>k<ndim ic. x ! k * A ! j ! k) + b ! j) [0..<ndim oc]]" by simp
next
  show "AffineTransform_init
      (Array float64 [[1, 0, 0, 0], [0, 2, 0, 0], [0, 0, 3, 0], [0, 0, 0, 1]])
      (axes [''i'', ''j'', ''k''] float64) (axes [''x'', ''y'', ''z''] float64) = Inr diag_ijk_xyz"
    unfolding diag_ijk_xyz_def
    by (rule AffineTransform_init_ok) (simp_all add: axes_def has_shape_def ndim_def)
next
  show "call diag_ijk_xyz [[1, 1, 1]] = Inr [[1, 2, 3]]" by code_simp
next
  have "(case inverse_of diag_ijk_xyz of
           Inr (Some ti) \<Rightarrow> call ti [[1, 2, 3]]
         | _ \<Rightarrow> Inl IndexError) = Inr [[1, 1, 1]]"
    by code_simp
  then show "\<exists>ti. inverse_of diag_ijk_xyz = Inr (Some ti) \<and> call ti [[1, 2, 3]] = Inr [[1, 1, 1]]"
    by (auto split: sum.splits option.splits)
qed

theorem affine_call_witness:
  "call diag_ijk_xyz [[1, 1, 1]] = Inr [[1, 2, 3]]"
proof -
  let ?A = "[[1, 0, 0], [0, 2, 0], [0, 0, 3 :: rat]]"
  let ?ic = "axes [''i'', ''j'', ''k''] float64" and ?oc = "axes [''x'', ''y'', ''z''] float64"
  have nd: "ndim ?ic = 3" "ndim ?oc = 3" by (simp_all add: axes_def ndim_def)
  have h1: "has_shape ?A (ndim ?oc) (ndim ?ic)" by (simp add: nd has_shape_def)
  have h2: "length [0, 0, 0 :: rat] = ndim ?oc" by (simp add: nd)
  have H: "homogeneous (ndim ?ic) ?A [0, 0, 0] =
      [[1, 0, 0, 0], [0, 2, 0, 0], [0, 0, 3, 0], [0, 0, 0, 1]]"
    by (simp add: nd homogeneous_def numeral_3_eq_3)
  have h3: "AffineTransform_init (Array float64 (homogeneous (ndim ?ic) ?A [0, 0, 0])) ?ic ?oc =
      Inr diag_ijk_xyz"
    unfolding H diag_ijk_xyz_def
    by (rule AffineTransform_init_ok) (simp_all add: axes_def has_shape_def ndim_def)
  have h4: "length [1, 1, 1 :: rat] = ndim ?ic" by (simp add: nd)
  have upt3: "[0..<3] = [0, 1, 2]" by (simp add: upt_rec)
  have lt3: "{..<3::nat} = {0, 1, 2}" by auto
  from affine_call[OF h1 h2 h3 h4] have "call diag_ijk_xyz [[1, 1, 1]] =
      Inr [map (\<lambda>j. (\<Sum>k<ndim ?ic. [1, 1, 1] ! k * ?A ! j ! k) + [0, 0, 0] ! j) [0..<ndim ?oc]]"
    by blast
  then show ?thesis by (simp add: nd upt3 lt3)
qed








text \<open>
  C7. \<^verbatim>\<open>renamed_input\<close> on a map whose input coordinates have a precision below
  \<^verbatim>\<open>np.float\<close>: the map is accepted by its constructor and the key of the mapping is one
  of its input axes, yet the call fails. The identity matrix \<^verbatim>\<open>np.identity(ndim+1)\<close> is
  not cast to the precision of the input coordinates, as \<^verbatim>\<open>reordered_input\<close> does with
  its permutation, so the constructor of the identity transform promotes its coordinate
  systems and \<^verbatim>\<open>compose\<close> finds the seam mismatched.
\<close>

theorem renamed_input_float32_fails:
  "CoordinateMap_init (\<lambda>x. Inr x) (axes [''i''] float32) (axes [''x''] float32) None
     = Inr float32_map \<and>
   renamed_input float32_map [(''i'', ''a'')] '''' =
     Inl (ValueError (coordinates_do_not_match (axes [''i''] float32) (axes [''i''] float64))) \<and>
   error_of (reordered_input float32_map None '''') = None"
proof -
  have "maps_points (\<lambda>x. Inr x :: error + rat list) (ndim (axes [''i''] float32))
          (ndim (axes [''x''] float32))"
    by (simp add: maps_points_def ndim_def axes_def)
  then have a: "CoordinateMap_init (\<lambda>x. Inr x) (axes [''i''] float32) (axes [''x''] float32) None
     = Inr float32_map"
    unfolding float32_map_def by (rule CoordinateMap_init_ok)
  have "error_of (renamed_input float32_map [(''i'', ''a'')] '''') =
     Some (ValueError (coordinates_do_not_match (axes [''i''] float32) (axes [''i''] float64)))"
    by code_simp
  then have b: "renamed_input float32_map [(''i'', ''a'')] '''' =
     Inl (ValueError (coordinates_do_not_match (axes [''i''] float32) (axes [''i''] float64)))"
    by (rule error_ofD)
  have c: "error_of (reordered_input float32_map None '''') = None"
    by code_simp
  from a b c show ?thesis by simp
qed



lemma setitem_in_other:
  assumes "setitem_in s p i j v = Inr s1" and "q \<noteq> p"
  shows "s1 ! q = s ! q"
  using assms by (auto simp add: setitem_in_def split: sum.splits)

text \<open>
  C9. \<^verbatim>\<open>copy()\<close> of an \<^verbatim>\<open>AffineTransform\<close> returns a new transform with an equal matrix
  and equal coordinate systems whose matrix is a different array: no array of the store
  is changed by the copy, an assignment to an entry of the copy's matrix leaves the
  original's matrix and function as they were, and an assignment to the original's
  matrix leaves the copy's.
\<close>

theorem copy_independent:
  assumes "constructed s t"
  shows "\<exists>s1 t1. copy_in s t = Inr (s1, t1) \<and> constructed s1 t1 \<and>
     affine_ref t1 \<noteq> affine_ref t \<and>
     s1 ! affine_ref t1 = s ! affine_ref t \<and>
     object_input_coords t1 = object_input_coords t \<and>
     object_output_coords t1 = object_output_coords t \<and>
     (\<forall>p<length s. s1 ! p = s ! p) \<and>
     (\<forall>i j v s2. setitem_in s1 (affine_ref t1) i j v = Inr s2 \<longrightarrow>
        s2 ! affine_ref t = s ! affine_ref t \<and> object_function s2 t = object_function s t) \<and>
     (\<forall>i j v s2. setitem_in s1 (affine_ref t) i j v = Inr s2 \<longrightarrow>
        s2 ! affine_ref t1 = s ! affine_ref t \<and> object_function s2 t1 = object_function s t)"
proof -
  let ?p = "affine_ref t"
  let ?ic = "object_input_coords t" and ?oc = "object_output_coords t"
  let ?s1 = "s @ [s ! ?p]"
  let ?t1 = "\<lparr>affine_ref = length s, object_input_coords = ?ic, object_output_coords = ?oc\<rparr>"
  from assms have p: "?p < length s"
    and sh: "has_shape (rows (s ! ?p)) (ndim ?oc + 1) (ndim ?ic + 1)"
    and dt: "dtype (s ! ?p) = coord_dtype ?ic" "coord_dtype ?oc = coord_dtype ?ic"
    by (simp_all add: constructed_def)
  have ic: "\<lparr>coord_names = coord_names ?ic, name = name ?ic, coord_dtype = coord_dtype ?ic\<rparr> = ?ic"
    and oc: "\<lparr>coord_names = coord_names ?oc, name = name ?oc, coord_dtype = coord_dtype ?ic\<rparr> = ?oc"
    using dt(2) by simp_all
  have init: "AffineTransform_init_in ?s1 (length s) ?ic ?oc = Inr (?s1, ?t1)"
    using sh dt ic oc
    by (simp add: AffineTransform_init_in_def Let_def np_asarray_def safe_dtype_same ndim_def)
  have cp: "copy_in s t = Inr (?s1, ?t1)"
    using init by (simp add: copy_in_def ndarray_copy_def alloc_def)
  have c1: "constructed ?s1 ?t1" using sh dt by (simp add: constructed_def)
  have ne: "affine_ref ?t1 \<noteq> ?p" using p by simp
  have old: "\<forall>q<length s. ?s1 ! q = s ! q" by (simp add: nth_append)
  have m1: "\<forall>i j v s2. setitem_in ?s1 (affine_ref ?t1) i j v = Inr s2 \<longrightarrow>
        s2 ! ?p = s ! ?p \<and> object_function s2 t = object_function s t"
  proof (intro allI impI)
    fix i j v s2
    assume "setitem_in ?s1 (affine_ref ?t1) i j v = Inr s2"
    from setitem_in_other[OF this, of ?p] p have "s2 ! ?p = s ! ?p" by (simp add: nth_append)
    then show "s2 ! ?p = s ! ?p \<and> object_function s2 t = object_function s t"
      by (simp add: object_function_def)
  qed
  have m2: "\<forall>i j v s2. setitem_in ?s1 ?p i j v = Inr s2 \<longrightarrow>
        s2 ! affine_ref ?t1 = s ! ?p \<and> object_function s2 ?t1 = object_function s t"
  proof (intro allI impI)
    fix i j v s2
    assume "setitem_in ?s1 ?p i j v = Inr s2"
    from setitem_in_other[OF this, of "length s"] p have "s2 ! length s = s ! ?p" by simp
    then show "s2 ! affine_ref ?t1 = s ! ?p \<and> object_function s2 ?t1 = object_function s t"
      by (simp add: object_function_def)
  qed
  have "copy_in s t = Inr (?s1, ?t1) \<and> constructed ?s1 ?t1 \<and>
     affine_ref ?t1 \<noteq> ?p \<and> ?s1 ! affine_ref ?t1 = s ! ?p \<and>
     object_input_coords ?t1 = ?ic \<and> object_output_coords ?t1 = ?oc \<and>
     (\<forall>q<length s. ?s1 ! q = s ! q) \<and>
     (\<forall>i j v s2. setitem_in ?s1 (affine_ref ?t1) i j v = Inr s2 \<longrightarrow>
        s2 ! ?p = s ! ?p \<and> object_function s2 t = object_function s t) \<and>
     (\<forall>i j v s2. setitem_in ?s1 ?p i j v = Inr s2 \<longrightarrow>
        s2 ! affine_ref ?t1 = s ! ?p \<and> object_function s2 ?t1 = object_function s t)"
    using cp c1 ne old m1 m2 by simp
  then show ?thesis by blast
qed

theorem copy_independent_witness:
  "\<exists>s1 t1 s2. copy_in eye4_store eye4_object = Inr (s1, t1) \<and>
     setitem_in s1 (affine_ref eye4_object) 0 0 2 = Inr s2 \<and>
     rows (s2 ! affine_ref eye4_object) ! 0 ! 0 = 2 \<and>
     rows (s2 ! affine_ref t1) ! 0 ! 0 = 1"
proof -
  have h: "constructed eye4_store eye4_object"
    by (simp add: constructed_def eye4_store_def eye4_object_def axes_def has_shape_def ndim_def)
  from copy_independent[OF h] obtain s1 t1 where
    cp: "copy_in eye4_store eye4_object = Inr (s1, t1)"
    and ne: "affine_ref t1 \<noteq> affine_ref eye4_object"
    and old: "\<forall>p<length eye4_store. s1 ! p = eye4_store ! p"
    and m2: "\<forall>i j v s2. setitem_in s1 (affine_ref eye4_object) i j v = Inr s2 \<longrightarrow>
        s2 ! affine_ref t1 = eye4_store ! affine_ref eye4_object \<and>
        object_function s2 t1 = object_function eye4_store eye4_object"
    by blast
  have ref: "affine_ref eye4_object = 0" by (simp add: eye4_object_def)
  from old have s10: "s1 ! 0 = Array float64 [[1, 0, 0, 0], [0, 1, 0, 0], [0, 0, 1, 0], [0, 0, 0, 1]]"
    by (simp add: eye4_store_def)
  let ?s2 = "s1[0 := Array float64 [[2, 0, 0, 0], [0, 1, 0, 0], [0, 0, 1, 0], [0, 0, 0, 1]]]"
  have set: "setitem_in s1 (affine_ref eye4_object) 0 0 2 = Inr ?s2"
    by (simp add: setitem_in_def set_item_def norm_index_def ref s10)
  from m2 set have "?s2 ! affine_ref t1 = eye4_store ! affine_ref eye4_object" by blast
  then have a: "rows (?s2 ! affine_ref t1) ! 0 ! 0 = 1" by (simp add: ref eye4_store_def)
  have "s1 \<noteq> []" using cp ne ref
    by (auto simp add: copy_in_def ndarray_copy_def alloc_def AffineTransform_init_in_def Let_def
        np_asarray_def split: if_splits)
  then have b: "rows (?s2 ! affine_ref eye4_object) ! 0 ! 0 = 2" by (simp add: ref)
  from cp set a b show ?thesis by blast
qed



end
